theory Spec2Isabelle
  imports Main "HOL-Library.Word"
begin

section \<open>JavaScript strings\<close>

text \<open>
  A JavaScript string is a sequence of 16-bit code units. The literals of the source are
  ASCII, so they are written through \<open>js\<close>, which maps every character of an Isabelle
  string literal to the code unit of the same number.
\<close>

type_synonym jschar = "16 word"
type_synonym jsstring = "jschar list"

definition js :: "string \<Rightarrow> jsstring" where
  "js s = map (\<lambda>c. of_nat (of_char c)) s"

definition slash :: jschar where
  "slash = 0x2F"

definition percent :: jschar where
  "percent = 0x25"

datatype error = URIError | TypeError

section \<open>Path utilities of the helpers class\<close>

text \<open>
  \<^verbatim>\<open>
  _normalizePath (path) {
    if (!path) { path = '' }
    if (path.length === 0) { return '/' }
    if (path[0] !== '/') { path = '/' + path }
    return path
  }
  \<close>
  The argument is \<open>None\<close> for \<open>undefined\<close> or \<open>null\<close>; among strings only the empty one
  is falsy, and the first test replaces it by itself.
\<close>

definition normalizePath_opt :: "jsstring option \<Rightarrow> jsstring" where
  "normalizePath_opt path =
     (let path = (case path of None \<Rightarrow> [] | Some p \<Rightarrow> (if p = [] then [] else p))
      in if length path = 0 then [slash]
         else if path ! 0 \<noteq> slash then slash # path
         else path)"

definition normalizePath :: "jsstring \<Rightarrow> jsstring" where
  "normalizePath path = normalizePath_opt (Some path)"

section \<open>Built-in string operations\<close>

text \<open>
  \<open>String.prototype.split\<close> with a string separator and no limit: the pieces between
  the non-overlapping occurrences of the separator, found from left to right. An empty
  separator cuts the string into its code units.
\<close>

function split :: "jsstring \<Rightarrow> jsstring \<Rightarrow> jsstring list" where
  "split sep s =
     (if sep = [] then map (\<lambda>c. [c]) s
      else if s = [] then [[]]
      else if take (length sep) s = sep then [] # split sep (drop (length sep) s)
      else (case split sep (tl s) of
              [] \<Rightarrow> [[hd s]]
            | piece # pieces \<Rightarrow> (hd s # piece) # pieces))"
  by pat_completeness auto
termination
  by (relation "measure (\<lambda>(sep, s). length s)") auto

text \<open>\<open>Array.prototype.join\<close> on an array of strings.\<close>

fun join :: "jsstring \<Rightarrow> jsstring list \<Rightarrow> jsstring" where
  "join sep [] = []"
| "join sep [x] = x"
| "join sep (x # y # ys) = x @ sep @ join sep (y # ys)"

text \<open>
  Reading an array element: \<open>None\<close> is \<open>undefined\<close>, the value of an index out of range.
  \<open>ToString(undefined)\<close> is the string \<open>'undefined'\<close>.
\<close>

definition nth_opt :: "'a list \<Rightarrow> nat \<Rightarrow> 'a option" where
  "nth_opt xs i = (if i < length xs then Some (xs ! i) else None)"

definition toString :: "jsstring option \<Rightarrow> jsstring" where
  "toString v = (case v of None \<Rightarrow> js ''undefined'' | Some s \<Rightarrow> s)"

text \<open>
  \<open>Array.prototype.findIndex\<close> with a predicate that may throw: the elements are tested
  in order, the search stops at the first hit, and \<open>None\<close> stands for \<open>-1\<close>.
\<close>

fun findIndex :: "('a \<Rightarrow> error + bool) \<Rightarrow> 'a list \<Rightarrow> error + nat option" where
  "findIndex p [] = Inr None"
| "findIndex p (x # xs) =
     (case p x of
        Inl e \<Rightarrow> Inl e
      | Inr True \<Rightarrow> Inr (Some 0)
      | Inr False \<Rightarrow>
          (case findIndex p xs of
             Inl e \<Rightarrow> Inl e
           | Inr None \<Rightarrow> Inr None
           | Inr (Some i) \<Rightarrow> Inr (Some (Suc i))))"

subsection \<open>decodeURIComponent\<close>

text \<open>
  The \<open>Decode\<close> operation of ECMA-262 with an empty set of preserved escapes. An escape
  is \<open>%\<close> and two hexadecimal digits; an octet below 128 is a code unit by itself, any
  other octet starts a UTF-8 sequence of two to four escapes, which must be the
  well-formed encoding of a code point. Everything else throws \<open>URIError\<close>. The values
  of code units, octets and code points are integers.
\<close>

definition hexDigit :: "jschar \<Rightarrow> int option" where
  "hexDigit c =
     (let n = uint c
      in if 48 \<le> n \<and> n \<le> 57 then Some (n - 48)
         else if 65 \<le> n \<and> n \<le> 70 then Some (n - 55)
         else if 97 \<le> n \<and> n \<le> 102 then Some (n - 87)
         else None)"

definition parseHexOctet :: "jschar \<Rightarrow> jschar \<Rightarrow> int option" where
  "parseHexOctet h l =
     (case hexDigit h of
        None \<Rightarrow> None
      | Some a \<Rightarrow> (case hexDigit l of None \<Rightarrow> None | Some b \<Rightarrow> Some (16 * a + b)))"

text \<open>The number of leading 1 bits of an octet; 5 stands for every number above 4.\<close>

definition leadingOnes :: "int \<Rightarrow> nat" where
  "leadingOnes b =
     (if b < 128 then 0 else if b < 192 then 1 else if b < 224 then 2
      else if b < 240 then 3 else if b < 248 then 4 else 5)"

text \<open>
  The \<open>j\<close> escapes that continue a sequence, three code units each; \<open>None\<close> when the
  string ends early, an escape does not start with \<open>%\<close> or its digits are not
  hexadecimal.
\<close>

fun continuationBytes :: "nat \<Rightarrow> jsstring \<Rightarrow> int list option" where
  "continuationBytes 0 s = Some []"
| "continuationBytes (Suc j) (p # h # l # s) =
     (if p \<noteq> percent then None
      else (case parseHexOctet h l of
              None \<Rightarrow> None
            | Some b \<Rightarrow>
                (case continuationBytes j s of
                   None \<Rightarrow> None
                 | Some bs \<Rightarrow> Some (b # bs))))"
| "continuationBytes (Suc j) s = None"

definition isContinuation :: "int \<Rightarrow> bool" where
  "isContinuation b \<longleftrightarrow> 128 \<le> b \<and> b < 192"

text \<open>
  The code point of a well-formed UTF-8 sequence of two to four octets: no overlong
  form, no surrogate, nothing above \<open>0x10FFFF\<close>.
\<close>

fun utf8CodePoint :: "int list \<Rightarrow> int option" where
  "utf8CodePoint [b0, b1] =
     (let v = (b0 - 192) * 64 + (b1 - 128)
      in if isContinuation b1 \<and> 128 \<le> v then Some v else None)"
| "utf8CodePoint [b0, b1, b2] =
     (let v = (b0 - 224) * 4096 + (b1 - 128) * 64 + (b2 - 128)
      in if isContinuation b1 \<and> isContinuation b2 \<and> 2048 \<le> v
            \<and> \<not> (55296 \<le> v \<and> v \<le> 57343)
         then Some v else None)"
| "utf8CodePoint [b0, b1, b2, b3] =
     (let v = (b0 - 240) * 262144 + (b1 - 128) * 4096 + (b2 - 128) * 64 + (b3 - 128)
      in if isContinuation b1 \<and> isContinuation b2 \<and> isContinuation b3
            \<and> 65536 \<le> v \<and> v \<le> 1114111
         then Some v else None)"
| "utf8CodePoint bs = None"

definition utf16Encode :: "int \<Rightarrow> jsstring" where
  "utf16Encode v =
     (if v < 65536 then [of_int v]
      else [of_int (55296 + (v - 65536) div 1024), of_int (56320 + (v - 65536) mod 1024)])"

definition prepend :: "jsstring \<Rightarrow> error + jsstring \<Rightarrow> error + jsstring" where
  "prepend S rest = (case rest of Inl e \<Rightarrow> Inl e | Inr R \<Rightarrow> Inr (S @ R))"

fun Decode :: "jsstring \<Rightarrow> error + jsstring" where
  "Decode [] = Inr []"
| "Decode (c # s) =
     (if c \<noteq> percent then prepend [c] (Decode s)
      else (case s of
              h # l # s' \<Rightarrow>
                (case parseHexOctet h l of
                   None \<Rightarrow> Inl URIError
                 | Some b \<Rightarrow>
                     if leadingOnes b = 0 then prepend [of_int b] (Decode s')
                     else if leadingOnes b = 1 \<or> leadingOnes b > 4 then Inl URIError
                     else (case continuationBytes (leadingOnes b - 1) s' of
                             None \<Rightarrow> Inl URIError
                           | Some bs \<Rightarrow>
                               (case utf8CodePoint (b # bs) of
                                  None \<Rightarrow> Inl URIError
                                | Some v \<Rightarrow>
                                    prepend (utf16Encode v)
                                      (Decode (drop (3 * (leadingOnes b - 1)) s')))))
            | _ \<Rightarrow> Inl URIError))"

definition decodeURIComponent :: "jsstring \<Rightarrow> error + jsstring" where
  "decodeURIComponent encodedURIComponent = Decode encodedURIComponent"

subsection \<open>encodeURIComponent\<close>

text \<open>
  The \<open>Encode\<close> operation of ECMA-262: letters, digits and \<open>- _ . ! ~ * ' ( )\<close> are
  copied; any other code point is written as the escapes of its UTF-8 octets, with
  upper-case digits; a surrogate without its partner throws \<open>URIError\<close>.
\<close>

definition uriUnescaped :: "jschar \<Rightarrow> bool" where
  "uriUnescaped c \<longleftrightarrow>
     (let n = uint c
      in (65 \<le> n \<and> n \<le> 90) \<or> (97 \<le> n \<and> n \<le> 122) \<or> (48 \<le> n \<and> n \<le> 57)
         \<or> n = 45 \<or> n = 95 \<or> n = 46 \<or> n = 33 \<or> n = 126 \<or> n = 42 \<or> n = 39
         \<or> n = 40 \<or> n = 41)"

definition isLeadingSurrogate :: "jschar \<Rightarrow> bool" where
  "isLeadingSurrogate c \<longleftrightarrow> 55296 \<le> uint c \<and> uint c \<le> 56319"

definition isTrailingSurrogate :: "jschar \<Rightarrow> bool" where
  "isTrailingSurrogate c \<longleftrightarrow> 56320 \<le> uint c \<and> uint c \<le> 57343"

definition utf16SurrogatePairToCodePoint :: "jschar \<Rightarrow> jschar \<Rightarrow> int" where
  "utf16SurrogatePairToCodePoint lead trail =
     (uint lead - 55296) * 1024 + (uint trail - 56320) + 65536"

definition utf8Encode :: "int \<Rightarrow> int list" where
  "utf8Encode v =
     (if v < 128 then [v]
      else if v < 2048 then [192 + v div 64, 128 + v mod 64]
      else if v < 65536 then [224 + v div 4096, 128 + (v div 64) mod 64, 128 + v mod 64]
      else [240 + v div 262144, 128 + (v div 4096) mod 64, 128 + (v div 64) mod 64,
            128 + v mod 64])"

definition hexChar :: "int \<Rightarrow> jschar" where
  "hexChar d = (if d < 10 then of_int (48 + d) else of_int (55 + d))"

definition escapes :: "int list \<Rightarrow> jsstring" where
  "escapes octets = concat (map (\<lambda>b. [percent, hexChar (b div 16), hexChar (b mod 16)]) octets)"

fun Encode :: "jsstring \<Rightarrow> error + jsstring" where
  "Encode [] = Inr []"
| "Encode (c # s) =
     (if uriUnescaped c then prepend [c] (Encode s)
      else if isTrailingSurrogate c then Inl URIError
      else if isLeadingSurrogate c
      then (case s of
              [] \<Rightarrow> Inl URIError
            | d # s' \<Rightarrow>
                if isTrailingSurrogate d
                then prepend (escapes (utf8Encode (utf16SurrogatePairToCodePoint c d)))
                       (Encode s')
                else Inl URIError)
      else prepend (escapes (utf8Encode (uint c))) (Encode s))"

definition encodeURIComponent :: "jsstring \<Rightarrow> error + jsstring" where
  "encodeURIComponent uriComponent = Encode uriComponent"

subsection \<open>parseInt\<close>

text \<open>
  A JavaScript Number is a double. Every integer of magnitude below \<open>2^53\<close> is a double
  to which no other integer is rounded (\<open>Number.isSafeInteger\<close>), and \<open>Integer n\<close> is that
  Number. \<open>OutOfRange\<close> stands for every integral result of magnitude \<open>2^53\<close> or more:
  there \<open>parseInt\<close> rounds to a double (and may approximate after the 20th digit),
  \<open>ToString\<close> changes to exponent notation from \<open>10^21\<close>, and the value is not
  computed here.
\<close>

datatype number = NaN | Integer int | OutOfRange

definition safeInteger :: "int \<Rightarrow> bool" where
  "safeInteger n \<longleftrightarrow> - 9007199254740991 \<le> n \<and> n \<le> 9007199254740991"

text \<open>
  \<open>parseInt\<close> without a radix: leading white space is skipped, a sign is read, \<open>0x\<close> or
  \<open>0X\<close> selects radix 16, and the longest prefix of digits is the value; the result is
  \<open>NaN\<close> when there is no digit.
\<close>

definition isWhiteSpace :: "jschar \<Rightarrow> bool" where
  "isWhiteSpace c \<longleftrightarrow>
     (let n = uint c
      in (9 \<le> n \<and> n \<le> 13) \<or> n = 32 \<or> n = 160 \<or> n = 5760
         \<or> (8192 \<le> n \<and> n \<le> 8202) \<or> n = 8232 \<or> n = 8233 \<or> n = 8239
         \<or> n = 8287 \<or> n = 12288 \<or> n = 65279)"

text \<open>The value of a digit or letter in radix 36; 36 for any other code unit.\<close>

definition digitValue :: "jschar \<Rightarrow> int" where
  "digitValue c =
     (let n = uint c
      in if 48 \<le> n \<and> n \<le> 57 then n - 48
         else if 65 \<le> n \<and> n \<le> 90 then n - 55
         else if 97 \<le> n \<and> n \<le> 122 then n - 87
         else 36)"

definition parseInt :: "jsstring \<Rightarrow> number" where
  "parseInt inputString =
     (let S = dropWhile isWhiteSpace inputString;
          sign = (if S \<noteq> [] \<and> hd S = 0x2D then - 1 else 1 :: int);
          S = (if S \<noteq> [] \<and> (hd S = 0x2B \<or> hd S = 0x2D) then tl S else S);
          stripPrefix = (2 \<le> length S \<and> (take 2 S = js ''0x'' \<or> take 2 S = js ''0X''));
          R = (if stripPrefix then 16 else 10 :: int);
          S = (if stripPrefix then drop 2 S else S);
          Z = takeWhile (\<lambda>c. digitValue c < R) S
      in if Z = [] then NaN
         else (let mathInt = foldl (\<lambda>acc c. acc * R + digitValue c) 0 Z
               in if safeInteger (sign * mathInt) then Integer (sign * mathInt)
                  else OutOfRange))"

text \<open>
  \<open>ToString\<close> of an integral Number of magnitude below \<open>2^53\<close>: its decimal numeral,
  after \<open>-\<close> when it is negative. It is applied to such Numbers only.
\<close>

function decimalDigits :: "int \<Rightarrow> jsstring" where
  "decimalDigits n =
     (if n < 10 then [of_int (48 + n)]
      else decimalDigits (n div 10) @ [of_int (48 + n mod 10)])"
  by pat_completeness auto
termination
  by (relation "measure nat") auto

definition numberToString :: "int \<Rightarrow> jsstring" where
  "numberToString n = (if n < 0 then 0x2D # decimalDigits (- n) else decimalDigits n)"

section \<open>The path resolver\<close>

text \<open>
  \<^verbatim>\<open>
  _extractPath (path, leftTrimComponents) {
    let pathSections = path.split('/')
    pathSections = pathSections.filter(function (section) { return section !== '' })
    let remoteIndex = pathSections.findIndex(
      section => decodeURIComponent(section) === 'remote.php')
    if (remoteIndex === -1) { return null }
    if (['webdav', 'dav'].indexOf(decodeURIComponent(pathSections[remoteIndex + 1])) === -1) {
      return null
    }
    leftTrimComponents = leftTrimComponents || 0
    let subPath = ''
    let i = remoteIndex + leftTrimComponents + 2
    while (i < pathSections.length) {
      subPath += '/' + decodeURIComponent(pathSections[i])
      i++
    }
    return subPath
  }
  \<close>
  The result is \<open>Inl\<close> for a thrown error, \<open>Inr None\<close> for \<open>null\<close> and \<open>Inr (Some p)\<close>
  for a path. \<open>leftTrimComponents\<close> is a natural number, on which \<open>|| 0\<close> changes nothing.
\<close>

definition isRemote :: "jsstring \<Rightarrow> error + bool" where
  "isRemote section =
     (case decodeURIComponent section of
        Inl e \<Rightarrow> Inl e
      | Inr d \<Rightarrow> Inr (d = js ''remote.php''))"

function extractLoop :: "jsstring list \<Rightarrow> nat \<Rightarrow> jsstring \<Rightarrow> error + jsstring" where
  "extractLoop pathSections i subPath =
     (if i < length pathSections
      then (case decodeURIComponent (pathSections ! i) of
              Inl e \<Rightarrow> Inl e
            | Inr d \<Rightarrow> extractLoop pathSections (Suc i) (subPath @ slash # d))
      else Inr subPath)"
  by pat_completeness auto
termination
  by (relation "measure (\<lambda>(pathSections, i, subPath). length pathSections - i)") auto

definition pathSectionsOf :: "jsstring \<Rightarrow> jsstring list" where
  "pathSectionsOf path =
     (let pathSections = split (js ''/'') path
      in filter (\<lambda>section. section \<noteq> []) pathSections)"

definition extractPath :: "jsstring \<Rightarrow> nat \<Rightarrow> error + jsstring option" where
  "extractPath path leftTrimComponents =
     (let pathSections = pathSectionsOf path
      in case findIndex isRemote pathSections of
           Inl e \<Rightarrow> Inl e
         | Inr None \<Rightarrow> Inr None
         | Inr (Some remoteIndex) \<Rightarrow>
             (case decodeURIComponent (toString (nth_opt pathSections (remoteIndex + 1))) of
                Inl e \<Rightarrow> Inl e
              | Inr d \<Rightarrow>
                  if d \<notin> set [js ''webdav'', js ''dav''] then Inr None
                  else (case extractLoop pathSections (remoteIndex + leftTrimComponents + 2) [] of
                          Inl e \<Rightarrow> Inl e
                        | Inr subPath \<Rightarrow> Inr (Some subPath))))"

text \<open>
  \<^verbatim>\<open>
  _encodeUri (path) {
    path = this._normalizePath(path)
    path = encodeURIComponent(path)
    return path.split('%2F').join('/')
  }
  \<close>
\<close>

definition encodeUri :: "jsstring \<Rightarrow> error + jsstring" where
  "encodeUri path =
     (let path = normalizePath path
      in case encodeURIComponent path of
           Inl e \<Rightarrow> Inl e
         | Inr path \<Rightarrow> Inr (join (js ''/'') (split (js ''%2F'') path)))"

text \<open>
  Auxiliary, for the proofs about \<open>_encodeUri\<close>: a string with every \<open>/\<close> replaced by
  its escape \<open>%2F\<close>, which is what \<open>encodeURIComponent\<close> makes of a string of unescaped
  characters and slashes.
\<close>

definition escapeSlashes :: "jsstring \<Rightarrow> jsstring" where
  "escapeSlashes p = concat (map (\<lambda>c. if c = slash then js ''%2F'' else [c]) p)"

section \<open>The OCS status check\<close>

text \<open>
  Modelled from the spec: the parsed envelope, \<open>{ocs?: {meta, data}}\<close> with
  \<open>meta = {statuscode, message}\<close>, which comes from \<open>xmlParser.js\<close> or \<open>JSON.parse\<close>. A
  missing \<open>ocs\<close> or \<open>meta\<close> is \<open>None\<close>. The status code is an integral Number (JSON) or
  a string (XML); the message is a string or a structure, of which only the keys matter
  here; the payload \<open>data\<close> is of any type \<open>'d\<close>.
\<close>

datatype statusCode = StatusNumber int | StatusString jsstring

datatype messageValue = MessageString jsstring | MessageObject "(jsstring \<times> jsstring) list"

record ocsMeta =
  statuscode :: statusCode
  message :: messageValue

record 'd ocsBody =
  meta :: "ocsMeta option"
  data :: 'd

record 'd envelope =
  ocs :: "'d ocsBody option"

text \<open>The result: \<open>ret\<close> is never assigned when there is no error.\<close>

datatype 'd ocsResult = NoError | ErrorMessage messageValue | WholeEnvelope "'d envelope"

text \<open>
  \<open>Object.keys(v).length\<close>: a string has one index key for each code unit, an object its
  own keys.
\<close>

definition objectKeysLength :: "messageValue \<Rightarrow> nat" where
  "objectKeysLength v = (case v of MessageString s \<Rightarrow> length s | MessageObject kvs \<Rightarrow> length kvs)"

text \<open>
  \<open>parseInt(meta.statuscode)\<close>: the argument is turned into a string first. A Number
  of magnitude \<open>2^53\<close> or more gives \<open>OutOfRange\<close>.
\<close>

definition parseIntOfStatus :: "statusCode \<Rightarrow> number" where
  "parseIntOfStatus c =
     (case c of
        StatusNumber n \<Rightarrow> if safeInteger n then parseInt (numberToString n) else OutOfRange
      | StatusString s \<Rightarrow> parseInt s)"

text \<open>
  \<open>acceptedCodes.indexOf(x) === -1\<close>, where \<open>NaN\<close> is equal to nothing; \<open>None\<close> when \<open>x\<close> is
  \<open>OutOfRange\<close> and the comparison is not computed.
\<close>

definition notAccepted :: "int list \<Rightarrow> number \<Rightarrow> bool option" where
  "notAccepted acceptedCodes x =
     (case x of
        NaN \<Rightarrow> Some True
      | Integer n \<Rightarrow> Some (n \<notin> set acceptedCodes)
      | OutOfRange \<Rightarrow> None)"

text \<open>
  \<^verbatim>\<open>
  _checkOCSstatus (json, acceptedCodes) {
    if (!acceptedCodes) { acceptedCodes = [100] }
    let meta
    if (json.ocs) { meta = json.ocs.meta }
    let ret
    if (meta && acceptedCodes.indexOf(parseInt(meta.statuscode)) === -1) {
      ret = meta.message
      if (Object.keys(meta.message).length === 0) {
        // no error message returned, return the whole message
        ret = json
      }
    }
    return ret
  }
  \<close>
  An array is truthy even when it is empty, so only a missing \<open>acceptedCodes\<close> is replaced.
  The accepted codes are integral Numbers; one of magnitude \<open>2^53\<close> or more is equal to
  no \<open>Integer n\<close>. The result is \<open>None\<close> where the status code is
  \<open>OutOfRange\<close>: the model says nothing about the call there.
\<close>

definition acceptedOrDefault :: "int list option \<Rightarrow> int list" where
  "acceptedOrDefault acceptedCodes = (case acceptedCodes of None \<Rightarrow> [100] | Some codes \<Rightarrow> codes)"

definition checkOCSstatus :: "'d envelope \<Rightarrow> int list option \<Rightarrow> 'd ocsResult option" where
  "checkOCSstatus json acceptedCodes =
     (let acceptedCodes = acceptedOrDefault acceptedCodes;
          meta0 = (case ocs json of None \<Rightarrow> None | Some body \<Rightarrow> meta body)
      in case meta0 of
           None \<Rightarrow> Some NoError
         | Some m \<Rightarrow>
             (case notAccepted acceptedCodes (parseIntOfStatus (statuscode m)) of
                None \<Rightarrow> None
              | Some True \<Rightarrow>
                  Some (if objectKeysLength (message m) = 0 then WholeEnvelope json
                        else ErrorMessage (message m))
              | Some False \<Rightarrow> Some NoError))"

section \<open>Decoding a multi-status response\<close>

text \<open>
  Modelled from the spec: the objects that the XML parser (\<open>xmlParser.js\<close>) hands over
  and the \<open>FileInfo\<close> class (\<open>fileInfo.js\<close>), neither of which is among the sources.
  An entry is \<open>{href: string, propStat: [{status: string, properties: mapping}]}\<close>; a
  property value is a string or a list of element nodes, of which the code reads
  \<open>namespaceURI\<close> (\<open>None\<close> is \<open>null\<close>) and \<open>nodeName\<close>; a \<open>FileInfo\<close> holds the name,
  the type and the property mapping it was built from.
\<close>

record xmlNode =
  namespaceURI :: "jsstring option"
  nodeName :: jsstring

datatype propValue = PropString jsstring | PropNodes "xmlNode list"

record propStatBlock =
  status :: jsstring
  properties :: "(jsstring \<times> propValue) list"

record response =
  href :: jsstring
  propStat :: "propStatBlock list"

record fileInfo =
  name :: jsstring
  type :: jsstring
  props :: "(jsstring \<times> propValue) list"

text \<open>
  \<^verbatim>\<open>
  _parseFileInfo (response, leftTrimComponents = 0) {
    const path = this._extractPath(response.href, leftTrimComponents)
    if (path === null) { return null }
    let name = path
    if (response.propStat.length === 0 || response.propStat[0].status !== 'HTTP/1.1 200 OK') {
      return null
    }
    const props = response.propStat[0].properties
    let fileType = 'file'
    const resType = props['{DAV:}resourcetype']
    if (resType) {
      const xmlvalue = resType[0]
      if (xmlvalue.namespaceURI === 'DAV:' && xmlvalue.nodeName.split(':')[1] === 'collection') {
        fileType = 'dir'
      }
    }
    return new FileInfo(name, fileType, props)
  }
  \<close>
  An empty string is falsy, so it is skipped like a missing property. A non-empty string
  is truthy, its element 0 is a one-character string, and the \<open>namespaceURI\<close> of that is
  \<open>undefined\<close>: the type stays \<open>'file'\<close>. An empty list is truthy, its element 0 is
  \<open>undefined\<close>, and reading \<open>namespaceURI\<close> from it throws \<open>TypeError\<close>.
\<close>

definition fileTypeOf :: "propValue option \<Rightarrow> error + jsstring" where
  "fileTypeOf resType =
     (case resType of
        None \<Rightarrow> Inr (js ''file'')
      | Some (PropString s) \<Rightarrow> Inr (js ''file'')
      | Some (PropNodes []) \<Rightarrow> Inl TypeError
      | Some (PropNodes (xmlvalue # others)) \<Rightarrow>
          if namespaceURI xmlvalue = Some (js ''DAV:'')
             \<and> nth_opt (split (js '':'') (nodeName xmlvalue)) 1 = Some (js ''collection'')
          then Inr (js ''dir'')
          else Inr (js ''file''))"

definition parseFileInfo :: "response \<Rightarrow> nat \<Rightarrow> error + fileInfo option" where
  "parseFileInfo response leftTrimComponents =
     (case extractPath (href response) leftTrimComponents of
        Inl e \<Rightarrow> Inl e
      | Inr None \<Rightarrow> Inr None
      | Inr (Some path) \<Rightarrow>
          if length (propStat response) = 0
             \<or> status (propStat response ! 0) \<noteq> js ''HTTP/1.1 200 OK''
          then Inr None
          else (let properties0 = properties (propStat response ! 0);
                    resType = map_of properties0 (js ''{DAV:}resourcetype'')
                in case fileTypeOf resType of
                     Inl e \<Rightarrow> Inl e
                   | Inr fileType \<Rightarrow>
                       Inr (Some \<lparr>name = path, type = fileType, props = properties0\<rparr>)))"

text \<open>
  The local name of a qualified XML name in the words of the spec (``tag localname''),
  for comparison with \<open>nodeName.split(':')[1]\<close>: what follows the prefix and its colon,
  and the whole name when there is no prefix.
\<close>

definition localNameSpec :: "jsstring \<Rightarrow> jsstring" where
  "localNameSpec qualifiedName =
     (if 0x3A \<in> set qualifiedName then tl (dropWhile (\<lambda>c. c \<noteq> 0x3A) qualifiedName)
      else qualifiedName)"

text \<open>
  \<^verbatim>\<open>
  _parseBody (responses, leftTrimComponents = 0) {
    if (!Array.isArray(responses)) { responses = [responses] }
    const self = this
    const fileInfos = []
    for (let i = 0; i < responses.length; i++) {
      const fileInfo = self._parseFileInfo(responses[i], leftTrimComponents)
      if (fileInfo !== null) { fileInfos.push(fileInfo) }
    }
    return fileInfos
  }
  \<close>
\<close>

datatype responses = Single response | Array "response list"

function parseBodyLoop ::
  "response list \<Rightarrow> nat \<Rightarrow> nat \<Rightarrow> fileInfo list \<Rightarrow> error + fileInfo list" where
  "parseBodyLoop rs leftTrimComponents i fileInfos =
     (if i < length rs
      then (case parseFileInfo (rs ! i) leftTrimComponents of
              Inl e \<Rightarrow> Inl e
            | Inr None \<Rightarrow> parseBodyLoop rs leftTrimComponents (Suc i) fileInfos
            | Inr (Some fileInfo) \<Rightarrow>
                parseBodyLoop rs leftTrimComponents (Suc i) (fileInfos @ [fileInfo]))
      else Inr fileInfos)"
  by pat_completeness auto
termination
  by (relation "measure (\<lambda>(rs, leftTrimComponents, i, fileInfos). length rs - i)") auto

definition responsesOf :: "responses \<Rightarrow> response list" where
  "responsesOf input = (case input of Single r \<Rightarrow> [r] | Array rs \<Rightarrow> rs)"

definition parseBody :: "responses \<Rightarrow> nat \<Rightarrow> error + fileInfo list" where
  "parseBody input leftTrimComponents =
     (let rs = responsesOf input
      in parseBodyLoop rs leftTrimComponents 0 [])"

section \<open>Properties\<close>

declare split.simps [simp del] extractLoop.simps [simp del] parseBodyLoop.simps [simp del]
  decimalDigits.simps [simp del]

lemma normalizePath_simps:
  "normalizePath [] = [slash]"
  "normalizePath (c # cs) = (if c = slash then c # cs else slash # c # cs)"
  by (simp_all add: normalizePath_def normalizePath_opt_def)

text \<open>
  Claim C8. \<open>_normalizePath\<close> is idempotent on every string, maps the empty string to
  \<open>'/'\<close>, and every result starts with \<open>'/'\<close>.
\<close>

theorem normalizePath_idempotent:
  "normalizePath (normalizePath p) = normalizePath p
   \<and> normalizePath [] = js ''/''
   \<and> (\<exists>rest. normalizePath p = slash # rest)"
  by (cases p) (simp_all add: normalizePath_simps js_def slash_def)

subsection \<open>The path resolver\<close>

lemma isRemote_True: "isRemote s = Inr True \<longleftrightarrow> decodeURIComponent s = Inr (js ''remote.php'')"
  by (auto simp: isRemote_def split: sum.splits)

lemma isRemote_False:
  "isRemote s = Inr False \<longleftrightarrow> (\<exists>d. decodeURIComponent s = Inr d \<and> d \<noteq> js ''remote.php'')"
  by (auto simp: isRemote_def split: sum.splits)

lemma findIndex_None:
  "findIndex p xs = Inr None \<longleftrightarrow> (\<forall>x \<in> set xs. p x = Inr False)"
  by (induction xs) (auto split: sum.splits bool.splits option.splits)

lemma findIndex_Some:
  "findIndex p xs = Inr (Some i) \<longleftrightarrow>
     i < length xs \<and> p (xs ! i) = Inr True \<and> (\<forall>j<i. p (xs ! j) = Inr False)"
proof (induction xs arbitrary: i)
  case Nil
  show ?case by simp
next
  case (Cons x xs)
  show ?case
  proof (cases "p x")
    case (Inl e)
    then show ?thesis by (cases i) auto
  next
    case (Inr b)
    show ?thesis
    proof (cases b)
      case True
      with Inr show ?thesis by (cases i) auto
    next
      case False
      show ?thesis
      proof (cases i)
        case 0
        with Inr False show ?thesis by (auto split: sum.splits option.splits)
      next
        case (Suc k)
        have "(\<forall>j<Suc k. p ((x # xs) ! j) = Inr False) \<longleftrightarrow> (\<forall>j<k. p (xs ! j) = Inr False)"
          using Inr False by (auto simp: nth_Cons split: nat.splits) 
        with Inr False Suc Cons.IH [of k] show ?thesis
          by (auto split: sum.splits option.splits)
      qed
    qed
  qed
qed

lemma extractLoop_decoded:
  "map decodeURIComponent (drop i ps) = map Inr ds \<Longrightarrow>
     extractLoop ps i acc = Inr (acc @ concat (map (\<lambda>d. slash # d) ds))"
proof (induction ps i acc arbitrary: ds rule: extractLoop.induct)
  case (1 ps i acc)
  show ?case
  proof (cases "i < length ps")
    case False
    with "1.prems" show ?thesis by (simp add: extractLoop.simps [of ps i])
  next
    case True
    then have "drop i ps = ps ! i # drop (Suc i) ps"
      by (simp add: Cons_nth_drop_Suc)
    with "1.prems" obtain d ds' where ds: "ds = d # ds'"
      and d: "decodeURIComponent (ps ! i) = Inr d"
      and rest: "map decodeURIComponent (drop (Suc i) ps) = map Inr ds'"
      by (cases ds) auto
    from "1.IH" [OF True d rest] True d ds show ?thesis
      by (simp add: extractLoop.simps [of ps i])
  qed
qed

lemma extractPath_null_findIndex:
  "extractPath path l = Inr None \<longleftrightarrow>
     findIndex isRemote (pathSectionsOf path) = Inr None
     \<or> (\<exists>r d. findIndex isRemote (pathSectionsOf path) = Inr (Some r)
           \<and> decodeURIComponent (toString (nth_opt (pathSectionsOf path) (r + 1))) = Inr d
           \<and> d \<noteq> js ''webdav'' \<and> d \<noteq> js ''dav'')"
  by (auto simp: extractPath_def Let_def split: sum.splits option.splits)

lemma decode_undefined: "decodeURIComponent (js ''undefined'') = Inr (js ''undefined'')"
  by code_simp

lemma undefined_not_dav: "js ''undefined'' \<noteq> js ''webdav''" "js ''undefined'' \<noteq> js ''dav''"
  by code_simp+

lemma following_section:
  "(\<exists>d. decodeURIComponent (toString (nth_opt segs k)) = Inr d
        \<and> d \<noteq> js ''webdav'' \<and> d \<noteq> js ''dav'')
   \<longleftrightarrow> (k < length segs \<longrightarrow>
         (\<exists>d. decodeURIComponent (segs ! k) = Inr d \<and> d \<noteq> js ''webdav'' \<and> d \<noteq> js ''dav''))"
  by (simp add: nth_opt_def toString_def decode_undefined undefined_not_dav)

text \<open>
  Claim C2, as amended. \<open>_extractPath\<close> returns \<open>null\<close> exactly in two cases: every
  section is a well-formed percent-encoding and none decodes to \<open>remote.php\<close>; or there
  is a first section that decodes to \<open>remote.php\<close>, the sections before it are
  well-formed, and the section after it is missing or is well-formed and decodes to
  something other than \<open>webdav\<close> and \<open>dav\<close>.
\<close>

theorem extractPath_null_iff:
  "extractPath path leftTrimComponents = Inr None \<longleftrightarrow>
     (\<forall>s \<in> set (pathSectionsOf path).
        \<exists>d. decodeURIComponent s = Inr d \<and> d \<noteq> js ''remote.php'')
     \<or> (\<exists>r < length (pathSectionsOf path).
          (\<forall>j<r. \<exists>d. decodeURIComponent (pathSectionsOf path ! j) = Inr d
                      \<and> d \<noteq> js ''remote.php'')
          \<and> decodeURIComponent (pathSectionsOf path ! r) = Inr (js ''remote.php'')
          \<and> (r + 1 < length (pathSectionsOf path) \<longrightarrow>
               (\<exists>d. decodeURIComponent (pathSectionsOf path ! (r + 1)) = Inr d
                    \<and> d \<noteq> js ''webdav'' \<and> d \<noteq> js ''dav'')))"
  unfolding extractPath_null_findIndex findIndex_None findIndex_Some
    isRemote_True isRemote_False
  using following_section [of "pathSectionsOf path"] by blast

text \<open>
  Claim C1, as amended. When the first section that decodes to \<open>remote.php\<close> has index
  \<open>r\<close>, the sections before it are well-formed, the section after it decodes to
  \<open>webdav\<close> or \<open>dav\<close>, and the sections from offset \<open>r + leftTrimComponents + 2\<close> on
  decode to \<open>ds\<close>, then \<open>_extractPath\<close> returns the elements of \<open>ds\<close>, each after a
  \<open>/\<close>, in one string: the empty string when no section is left.
\<close>

theorem extractPath_subPath:
  assumes "r < length (pathSectionsOf path)"
    and "\<forall>j<r. \<exists>d. decodeURIComponent (pathSectionsOf path ! j) = Inr d \<and> d \<noteq> js ''remote.php''"
    and "decodeURIComponent (pathSectionsOf path ! r) = Inr (js ''remote.php'')"
    and "r + 1 < length (pathSectionsOf path)"
    and "decodeURIComponent (pathSectionsOf path ! (r + 1)) = Inr (js ''webdav'')
         \<or> decodeURIComponent (pathSectionsOf path ! (r + 1)) = Inr (js ''dav'')"
    and "map decodeURIComponent (drop (r + leftTrimComponents + 2) (pathSectionsOf path))
         = map Inr ds"
  shows "extractPath path leftTrimComponents = Inr (Some (concat (map (\<lambda>d. slash # d) ds)))"
proof -
  from assms(1-3) have found: "findIndex isRemote (pathSectionsOf path) = Inr (Some r)"
    by (simp add: findIndex_Some isRemote_True isRemote_False)
  from assms(4) have next_section:
    "toString (nth_opt (pathSectionsOf path) (Suc r)) = pathSectionsOf path ! Suc r"
    by (simp add: nth_opt_def toString_def)
  from assms(6) have loop:
    "extractLoop (pathSectionsOf path) (Suc (Suc (r + leftTrimComponents))) []
     = Inr (concat (map (\<lambda>d. slash # d) ds))"
    using extractLoop_decoded [of "Suc (Suc (r + leftTrimComponents))" "pathSectionsOf path" ds "[]"]
    by simp
  from assms(5) show ?thesis
    by (auto simp: extractPath_def Let_def found next_section loop)
qed

text \<open>
  Claim C10, as amended. When the only section that decodes to \<open>remote.php\<close> is the last
  one and the sections before it are well-formed, \<open>_extractPath\<close> returns \<open>null\<close>: the
  section read past the end is \<open>undefined\<close>, which decodes to \<open>'undefined'\<close>.
\<close>

theorem extractPath_remote_last:
  assumes "pathSectionsOf path = before @ [s]"
    and "\<forall>p \<in> set before. \<exists>d. decodeURIComponent p = Inr d \<and> d \<noteq> js ''remote.php''"
    and "decodeURIComponent s = Inr (js ''remote.php'')"
  shows "extractPath path leftTrimComponents = Inr None"
proof -
  have "findIndex isRemote (before @ [s]) = Inr (Some (length before))"
    using assms(2,3)
    by (auto simp: findIndex_Some isRemote_True isRemote_False nth_append)
  moreover have "nth_opt (before @ [s]) (length before + 1) = None"
    by (simp add: nth_opt_def)
  ultimately show ?thesis
    by (simp add: extractPath_def assms(1) toString_def decode_undefined undefined_not_dav)
qed

text \<open>
  Concrete hrefs: the theorems above at inputs that satisfy their hypotheses, and the
  inputs at which the claims fail as they were first stated.
\<close>

theorem extractPath_subPath_witness:
  "pathSectionsOf (js ''/remote.php/webdav/a/b%20c.txt'')
     = [js ''remote.php'', js ''webdav'', js ''a'', js ''b%20c.txt'']
   \<and> extractPath (js ''/remote.php/webdav/a/b%20c.txt'') 0 = Inr (Some (js ''/a/b c.txt''))
   \<and> extractPath (js ''/remote.php/dav/files/admin'') 2 = Inr (Some (js ''''))"
proof -
  let ?p = "js ''/remote.php/webdav/a/b%20c.txt''"
  have segs: "pathSectionsOf ?p = [js ''remote.php'', js ''webdav'', js ''a'', js ''b%20c.txt'']"
    by code_simp
  have h1: "0 < length (pathSectionsOf ?p)" by (simp add: segs)
  have h2: "\<forall>j<0. \<exists>d. decodeURIComponent (pathSectionsOf ?p ! j) = Inr d \<and> d \<noteq> js ''remote.php''"
    by simp
  have h3: "decodeURIComponent (pathSectionsOf ?p ! 0) = Inr (js ''remote.php'')"
    by code_simp
  have h4: "0 + 1 < length (pathSectionsOf ?p)" by (simp add: segs)
  have h5: "decodeURIComponent (pathSectionsOf ?p ! (0 + 1)) = Inr (js ''webdav'')
            \<or> decodeURIComponent (pathSectionsOf ?p ! (0 + 1)) = Inr (js ''dav'')"
    by code_simp
  have h6: "map decodeURIComponent (drop (0 + 0 + 2) (pathSectionsOf ?p))
            = map Inr [js ''a'', js ''b c.txt'']"
    by code_simp
  have res: "concat (map (\<lambda>d. slash # d) [js ''a'', js ''b c.txt'']) = js ''/a/b c.txt''"
    by code_simp
  let ?q = "js ''/remote.php/dav/files/admin''"
  have segs': "pathSectionsOf ?q = [js ''remote.php'', js ''dav'', js ''files'', js ''admin'']"
    by code_simp
  have k1: "0 < length (pathSectionsOf ?q)" by (simp add: segs')
  have k2: "\<forall>j<0. \<exists>d. decodeURIComponent (pathSectionsOf ?q ! j) = Inr d \<and> d \<noteq> js ''remote.php''"
    by simp
  have k3: "decodeURIComponent (pathSectionsOf ?q ! 0) = Inr (js ''remote.php'')"
    by code_simp
  have k4: "0 + 1 < length (pathSectionsOf ?q)" by (simp add: segs')
  have k5: "decodeURIComponent (pathSectionsOf ?q ! (0 + 1)) = Inr (js ''webdav'')
            \<or> decodeURIComponent (pathSectionsOf ?q ! (0 + 1)) = Inr (js ''dav'')"
    by code_simp
  have k6: "map decodeURIComponent (drop (0 + 2 + 2) (pathSectionsOf ?q)) = map Inr []"
    by (simp add: segs')
  have a: "extractPath ?p 0 = Inr (Some (js ''/a/b c.txt''))"
    using extractPath_subPath [OF h1 h2 h3 h4 h5 h6] by (simp only: res)
  have b: "extractPath ?q 2 = Inr (Some (js ''''))"
    using extractPath_subPath [OF k1 k2 k3 k4 k5 k6] by (simp add: js_def)
  from segs a b show ?thesis by (intro conjI)
qed

theorem extractPath_subPath_counterexample:
  "pathSectionsOf (js ''/remote.php/webdav/%'') = [js ''remote.php'', js ''webdav'', js ''%'']
   \<and> decodeURIComponent (js ''remote.php'') = Inr (js ''remote.php'')
   \<and> decodeURIComponent (js ''webdav'') = Inr (js ''webdav'')
   \<and> decodeURIComponent (js ''%'') = Inl URIError
   \<and> extractPath (js ''/remote.php/webdav/%'') 0 = Inl URIError
   \<and> pathSectionsOf (js ''/remote.php/x/remote.php/webdav/a'')
       = [js ''remote.php'', js ''x'', js ''remote.php'', js ''webdav'', js ''a'']
   \<and> extractPath (js ''/remote.php/x/remote.php/webdav/a'') 0 = Inr None"
  by (intro conjI; code_simp)

theorem extractPath_null_iff_witness:
  "extractPath (js ''/index.php/apps'') 0 = Inr None
   \<and> extractPath (js ''/remote.php/caldav/x'') 0 = Inr None"
proof -
  let ?p = "js ''/index.php/apps''"
  have segs: "pathSectionsOf ?p = [js ''index.php'', js ''apps'']" by code_simp
  have d1: "decodeURIComponent (js ''index.php'') = Inr (js ''index.php'')" by code_simp
  have d2: "decodeURIComponent (js ''apps'') = Inr (js ''apps'')" by code_simp
  have n1: "js ''index.php'' \<noteq> js ''remote.php''" by code_simp
  have n2: "js ''apps'' \<noteq> js ''remote.php''" by code_simp
  have none: "\<forall>s \<in> set (pathSectionsOf ?p).
          \<exists>d. decodeURIComponent s = Inr d \<and> d \<noteq> js ''remote.php''"
    by (simp add: segs d1 d2 n1 n2)
  let ?q = "js ''/remote.php/caldav/x''"
  have segs': "pathSectionsOf ?q = [js ''remote.php'', js ''caldav'', js ''x'']" by code_simp
  have e1: "decodeURIComponent (js ''remote.php'') = Inr (js ''remote.php'')" by code_simp
  have e2: "decodeURIComponent (js ''caldav'') = Inr (js ''caldav'')" by code_simp
  have m1: "js ''caldav'' \<noteq> js ''webdav''" by code_simp
  have m2: "js ''caldav'' \<noteq> js ''dav''" by code_simp
  have other: "0 < length (pathSectionsOf ?q)
      \<and> (\<forall>j<0. \<exists>d. decodeURIComponent (pathSectionsOf ?q ! j) = Inr d \<and> d \<noteq> js ''remote.php'')
      \<and> decodeURIComponent (pathSectionsOf ?q ! 0) = Inr (js ''remote.php'')
      \<and> (0 + 1 < length (pathSectionsOf ?q) \<longrightarrow>
           (\<exists>d. decodeURIComponent (pathSectionsOf ?q ! (0 + 1)) = Inr d
                \<and> d \<noteq> js ''webdav'' \<and> d \<noteq> js ''dav''))"
    by (simp add: segs' e1 e2 m1 m2)
  from none other show ?thesis
    using extractPath_null_iff [of ?p 0] extractPath_null_iff [of ?q 0] by blast
qed

theorem extractPath_null_iff_counterexample:
  "pathSectionsOf (js ''/files/%zz'') = [js ''files'', js ''%zz'']
   \<and> decodeURIComponent (js ''files'') = Inr (js ''files'')
   \<and> decodeURIComponent (js ''%zz'') = Inl URIError
   \<and> extractPath (js ''/files/%zz'') 0 = Inl URIError"
  by (intro conjI; code_simp)

theorem extractPath_remote_last_witness:
  "pathSectionsOf (js ''/owncloud/remote.php'') = [js ''owncloud''] @ [js ''remote.php'']
   \<and> extractPath (js ''/owncloud/remote.php'') 0 = Inr None"
proof -
  let ?p = "js ''/owncloud/remote.php''"
  have segs: "pathSectionsOf ?p = [js ''owncloud''] @ [js ''remote.php'']" by code_simp
  have d1: "decodeURIComponent (js ''owncloud'') = Inr (js ''owncloud'')" by code_simp
  have n1: "js ''owncloud'' \<noteq> js ''remote.php''" by code_simp
  have before: "\<forall>p \<in> set [js ''owncloud''].
      \<exists>d. decodeURIComponent p = Inr d \<and> d \<noteq> js ''remote.php''"
    by (simp add: d1 n1)
  have last: "decodeURIComponent (js ''remote.php'') = Inr (js ''remote.php'')" by code_simp
  from extractPath_remote_last [OF segs before last, of 0] segs show ?thesis by simp
qed

theorem extractPath_remote_last_counterexample:
  "pathSectionsOf (js ''/%/remote.php'') = [js ''%'', js ''remote.php'']
   \<and> decodeURIComponent (js ''remote.php'') = Inr (js ''remote.php'')
   \<and> decodeURIComponent (js ''%'') = Inl URIError
   \<and> extractPath (js ''/%/remote.php'') 0 = Inl URIError"
  by (intro conjI; code_simp)

subsection \<open>The decoders of multi-status entries\<close>

text \<open>
  Claim C3. For an entry whose href resolves to a path, \<open>_parseFileInfo\<close> returns \<open>null\<close>
  when the list of property-status blocks is empty or the status of the first block is
  not exactly \<open>HTTP/1.1 200 OK\<close>; and only the first block is inspected: the result is
  the same when every later block is removed.
\<close>

theorem parseFileInfo_first_propStat:
  assumes "extractPath (href response) leftTrimComponents = Inr (Some path)"
  shows "(propStat response = []
          \<or> status (propStat response ! 0) \<noteq> js ''HTTP/1.1 200 OK''
          \<longrightarrow> parseFileInfo response leftTrimComponents = Inr None)
       \<and> (\<forall>block others. propStat response = block # others \<longrightarrow>
             parseFileInfo response leftTrimComponents
             = parseFileInfo (response\<lparr>propStat := [block]\<rparr>) leftTrimComponents)"
  using assms by (auto simp: parseFileInfo_def)

lemma parseBodyLoop_decoded:
  "map (\<lambda>r. parseFileInfo r l) (drop i rs) = map Inr results \<Longrightarrow>
     parseBodyLoop rs l i acc = Inr (acc @ map the (filter (\<lambda>x. x \<noteq> None) results))"
proof (induction rs l i acc arbitrary: results rule: parseBodyLoop.induct)
  case (1 rs l i acc)
  show ?case
  proof (cases "i < length rs")
    case False
    with "1.prems" show ?thesis by (simp add: parseBodyLoop.simps [of rs l i])
  next
    case True
    then have "drop i rs = rs ! i # drop (Suc i) rs"
      by (simp add: Cons_nth_drop_Suc)
    with "1.prems" obtain x xs where results: "results = x # xs"
      and x: "parseFileInfo (rs ! i) l = Inr x"
      and rest: "map (\<lambda>r. parseFileInfo r l) (drop (Suc i) rs) = map Inr xs"
      by (cases results) auto
    show ?thesis
    proof (cases x)
      case None
      with "1.IH"(1) [OF True x _ rest] True x results show ?thesis
        by (simp add: parseBodyLoop.simps [of rs l i])
    next
      case (Some fi)
      with "1.IH"(2) [OF True x _ rest] True x results show ?thesis
        by (simp add: parseBodyLoop.simps [of rs l i])
    qed
  qed
qed

text \<open>
  Claim C5, as amended. When no entry makes \<open>_parseFileInfo\<close> throw, so that the entries
  of the input (a single entry counting as a list of one) decode to \<open>results\<close>, each
  \<open>null\<close> or a \<open>FileInfo\<close>, then \<open>_parseBody\<close> returns exactly the \<open>FileInfo\<close>s among
  \<open>results\<close>, in the order of the input: as many as there are entries, less those that
  decode to \<open>null\<close>.
\<close>

theorem parseBody_keeps_order:
  assumes "map (\<lambda>r. parseFileInfo r leftTrimComponents) (responsesOf input) = map Inr results"
  shows "\<exists>fileInfos. parseBody input leftTrimComponents = Inr fileInfos
           \<and> map Some fileInfos = filter (\<lambda>x. x \<noteq> None) results
           \<and> length fileInfos
              = length (responsesOf input) - length (filter (\<lambda>x. x = None) results)"
proof -
  have run: "parseBody input leftTrimComponents
             = Inr (map the (filter (\<lambda>x. x \<noteq> None) results))"
    using parseBodyLoop_decoded [of leftTrimComponents 0 "responsesOf input" results "[]"] assms
    by (simp add: parseBody_def)
  have same: "map Some (map the (filter (\<lambda>x. x \<noteq> None) results))
              = filter (\<lambda>x. x \<noteq> None) results"
    by (induction results) auto
  have "length (responsesOf input) = length results"
    using assms by (metis length_map)
  moreover have "length results
      = length (filter (\<lambda>x. x \<noteq> None) results) + length (filter (\<lambda>x. x = None) results)"
    by (induction results) auto
  ultimately have count: "length (map the (filter (\<lambda>x. x \<noteq> None) results))
      = length (responsesOf input) - length (filter (\<lambda>x. x = None) results)"
    by simp
  from run same count show ?thesis by blast
qed

lemma fileTypeOf_dir:
  "fileTypeOf resType = Inr t \<Longrightarrow>
     t = js ''dir'' \<longleftrightarrow>
       (\<exists>xmlvalue others. resType = Some (PropNodes (xmlvalue # others))
          \<and> namespaceURI xmlvalue = Some (js ''DAV:'')
          \<and> nth_opt (split (js '':'') (nodeName xmlvalue)) 1 = Some (js ''collection''))"
proof -
  have "js ''file'' \<noteq> js ''dir''" by code_simp
  then show "fileTypeOf resType = Inr t \<Longrightarrow> ?thesis"
    by (auto simp: fileTypeOf_def split: option.splits propValue.splits list.splits if_splits)
qed

lemma fileTypeOf_file_or_dir:
  "fileTypeOf resType = Inr t \<Longrightarrow> t = js ''file'' \<or> t = js ''dir''"
  by (auto simp: fileTypeOf_def split: option.splits propValue.splits list.splits if_splits)

lemma parseFileInfo_type:
  assumes "parseFileInfo response l = Inr (Some fi)"
  shows "fileTypeOf (map_of (properties (propStat response ! 0)) (js ''{DAV:}resourcetype''))
         = Inr (type fi)"
  using assms
  by (auto simp: parseFileInfo_def Let_def split: sum.splits option.splits if_splits)

lemma parseFileInfo_scenario:
  "parseFileInfo
     \<lparr>href = js ''/remote.php/webdav/docs/subdir/'',
      propStat = [\<lparr>status = js ''HTTP/1.1 200 OK'',
                   properties = [(js ''{DAV:}resourcetype'',
                     PropNodes [\<lparr>namespaceURI = Some (js ''DAV:''),
                                 nodeName = js ''d:collection''\<rparr>])]\<rparr>]\<rparr> 0
   = Inr (Some \<lparr>name = js ''/docs/subdir'', type = js ''dir'',
                 props = [(js ''{DAV:}resourcetype'',
                     PropNodes [\<lparr>namespaceURI = Some (js ''DAV:''),
                                 nodeName = js ''d:collection''\<rparr>])]\<rparr>)"
  by code_simp

lemma js_colon: "js '':'' = [0x3A]"
  by (simp add: js_def)

lemma split_colon_unprefixed:
  "0x3A \<notin> set n \<Longrightarrow> split (js '':'') n = [n]"
proof (induction n)
  case Nil
  show ?case by (simp add: split.simps js_colon)
next
  case (Cons c n)
  then show ?case by (simp add: split.simps [of _ "c # n"] js_colon)
qed

lemma split_colon_prefixed:
  "0x3A \<notin> set p \<Longrightarrow> 0x3A \<notin> set n \<Longrightarrow> split (js '':'') (p @ 0x3A # n) = [p, n]"
proof (induction p)
  case Nil
  then show ?case
    by (simp add: split.simps [of _ "0x3A # n"] js_colon split_colon_unprefixed [unfolded js_colon])
next
  case (Cons c p)
  then show ?case by (simp add: split.simps [of _ "c # p @ 0x3A # n"] js_colon)
qed

lemma localNameSpec_prefixed:
  "0x3A \<notin> set p \<Longrightarrow> localNameSpec (p @ 0x3A # n) = n"
proof -
  assume "0x3A \<notin> set p"
  then have "dropWhile (\<lambda>c. c \<noteq> 0x3A) (p @ 0x3A # n) = 0x3A # n"
    by (induction p) auto
  then show ?thesis by (simp add: localNameSpec_def)
qed

lemma prefixed_name_agrees:
  assumes "0x3A \<notin> set p" "0x3A \<notin> set n"
  shows "nth_opt (split (js '':'') (p @ 0x3A # n)) 1 = Some (js ''collection'')
         \<longleftrightarrow> localNameSpec (p @ 0x3A # n) = js ''collection''"
  using assms by (auto simp: split_colon_prefixed localNameSpec_prefixed nth_opt_def)

lemma unprefixed_name_never_dir:
  "0x3A \<notin> set n \<Longrightarrow> nth_opt (split (js '':'') n) 1 = None"
  by (simp add: split_colon_unprefixed nth_opt_def)

text \<open>
  Claim C4. The type is meant to be \<open>'dir'\<close> exactly when the first child of
  \<open>{DAV:}resourcetype\<close> has namespace \<open>DAV:\<close> and local name \<open>collection\<close>. The code takes
  the local name to be the second piece of \<open>nodeName\<close> split at \<open>:\<close>, which is right for a
  prefixed name such as \<open>d:collection\<close> (the scenario above) and \<open>undefined\<close> for a name
  without prefix: the element \<open>collection\<close> in the default namespace \<open>DAV:\<close> has local name
  \<open>collection\<close> and yet the entry decodes to type \<open>'file'\<close>.
\<close>

theorem parseFileInfo_unprefixed_collection:
  "localNameSpec (js ''collection'') = js ''collection''
   \<and> parseFileInfo
     \<lparr>href = js ''/remote.php/webdav/docs/subdir/'',
      propStat = [\<lparr>status = js ''HTTP/1.1 200 OK'',
                   properties = [(js ''{DAV:}resourcetype'',
                     PropNodes [\<lparr>namespaceURI = Some (js ''DAV:''),
                                 nodeName = js ''collection''\<rparr>])]\<rparr>]\<rparr> 0
   = Inr (Some \<lparr>name = js ''/docs/subdir'', type = js ''file'',
                 props = [(js ''{DAV:}resourcetype'',
                     PropNodes [\<lparr>namespaceURI = Some (js ''DAV:''),
                                 nodeName = js ''collection''\<rparr>])]\<rparr>)"
  by (intro conjI; code_simp)

text \<open>Concrete entries for the theorems of this subsection.\<close>

theorem parseFileInfo_first_propStat_witness:
  "extractPath (js ''/remote.php/webdav/f.txt'') 0 = Inr (Some (js ''/f.txt''))
   \<and> parseFileInfo \<lparr>href = js ''/remote.php/webdav/f.txt'', propStat = []\<rparr> 0 = Inr None
   \<and> parseFileInfo
        \<lparr>href = js ''/remote.php/webdav/f.txt'',
         propStat = [\<lparr>status = js ''HTTP/1.1 404 Not Found'', properties = []\<rparr>,
                     \<lparr>status = js ''HTTP/1.1 200 OK'', properties = []\<rparr>]\<rparr> 0
      = Inr None"
proof -
  let ?e = "\<lparr>href = js ''/remote.php/webdav/f.txt'', propStat = []\<rparr>"
  let ?b = "\<lparr>status = js ''HTTP/1.1 404 Not Found'', properties = []\<rparr>"
  let ?f = "\<lparr>href = js ''/remote.php/webdav/f.txt'',
             propStat = [?b, \<lparr>status = js ''HTTP/1.1 200 OK'', properties = []\<rparr>]\<rparr>"
  have path: "extractPath (js ''/remote.php/webdav/f.txt'') 0 = Inr (Some (js ''/f.txt''))"
    by code_simp
  have he: "extractPath (href ?e) 0 = Inr (Some (js ''/f.txt''))"
    using path by simp
  have hf: "extractPath (href ?f) 0 = Inr (Some (js ''/f.txt''))"
    using path by simp
  have differs: "js ''HTTP/1.1 404 Not Found'' \<noteq> js ''HTTP/1.1 200 OK''"
    by code_simp
  have a: "parseFileInfo ?e 0 = Inr None"
    using parseFileInfo_first_propStat [OF he] by simp
  have b: "parseFileInfo ?f 0 = Inr None"
    using parseFileInfo_first_propStat [OF hf] differs by simp
  from path a b show ?thesis by (intro conjI)
qed

theorem parseBody_keeps_order_witness:
  "parseBody (Array
     [\<lparr>href = js ''/remote.php/webdav/a'', propStat = [\<lparr>status = js ''HTTP/1.1 200 OK'', properties = []\<rparr>]\<rparr>,
      \<lparr>href = js ''/index.php/b'', propStat = [\<lparr>status = js ''HTTP/1.1 200 OK'', properties = []\<rparr>]\<rparr>,
      \<lparr>href = js ''/remote.php/webdav/c'', propStat = [\<lparr>status = js ''HTTP/1.1 200 OK'', properties = []\<rparr>]\<rparr>]) 0
   = Inr [\<lparr>name = js ''/a'', type = js ''file'', props = []\<rparr>,
          \<lparr>name = js ''/c'', type = js ''file'', props = []\<rparr>]"
proof -
  let ?ok = "\<lparr>status = js ''HTTP/1.1 200 OK'', properties = []\<rparr>"
  let ?input = "Array [\<lparr>href = js ''/remote.php/webdav/a'', propStat = [?ok]\<rparr>,
      \<lparr>href = js ''/index.php/b'', propStat = [?ok]\<rparr>,
      \<lparr>href = js ''/remote.php/webdav/c'', propStat = [?ok]\<rparr>]"
  let ?a = "\<lparr>name = js ''/a'', type = js ''file'', props = []\<rparr>"
  let ?c = "\<lparr>name = js ''/c'', type = js ''file'', props = []\<rparr>"
  have decoded: "map (\<lambda>r. parseFileInfo r 0) (responsesOf ?input)
                 = map Inr [Some ?a, None, Some ?c]"
    by code_simp
  from parseBody_keeps_order [OF decoded]
  obtain fileInfos where run: "parseBody ?input 0 = Inr fileInfos"
    and kept: "map Some fileInfos = filter (\<lambda>x. x \<noteq> None) [Some ?a, None, Some ?c]"
    by blast
  from kept have "map Some fileInfos = map Some [?a, ?c]" by simp
  then have "fileInfos = [?a, ?c]"
    by (simp only: inj_map_eq_map [OF inj_Some])
  with run show ?thesis by simp
qed

theorem parseBody_keeps_order_counterexample:
  "parseFileInfo \<lparr>href = js ''/remote.php/webdav/%'', propStat = []\<rparr> 0 = Inl URIError
   \<and> parseBody (Single \<lparr>href = js ''/remote.php/webdav/%'', propStat = []\<rparr>) 0 = Inl URIError"
  by (intro conjI; code_simp)

subsection \<open>The OCS status check\<close>

lemma objectKeysLength_0:
  "objectKeysLength v = 0 \<longleftrightarrow> v = MessageString [] \<or> v = MessageObject []"
  by (cases v) (simp_all add: objectKeysLength_def)

lemma parseInt_safe: "parseInt s = Integer n \<Longrightarrow> safeInteger n"
  by (auto simp: parseInt_def Let_def split: if_splits)

lemma parseIntOfStatus_safe: "parseIntOfStatus c = Integer n \<Longrightarrow> safeInteger n"
  by (cases c) (auto simp: parseIntOfStatus_def split: if_splits dest: parseInt_safe)

lemma parseIntOfStatus_out_of_range:
  "parseIntOfStatus (StatusString (js ''9007199254740993'')) = OutOfRange"
  "parseIntOfStatus (StatusNumber 1000000000000000000000) = OutOfRange"
  by code_simp+

text \<open>
  Claim C6. \<open>_checkOCSstatus\<close> reports no error when the envelope has no \<open>ocs\<close> or no
  \<open>ocs.meta\<close>, and when \<open>meta.statuscode\<close> parses to an integer that is among the accepted
  codes, which are \<open>[100]\<close> when the caller gives none. The integer is a Number of
  magnitude below \<open>2^53\<close>, which is what \<open>Integer n\<close> says.
\<close>

theorem checkOCSstatus_accepts:
  "(ocs json = None \<longrightarrow> checkOCSstatus json acceptedCodes = Some NoError)
   \<and> (\<forall>body. ocs json = Some body \<and> meta body = None
         \<longrightarrow> checkOCSstatus json acceptedCodes = Some NoError)
   \<and> (\<forall>body m n. ocs json = Some body \<and> meta body = Some m
         \<and> parseIntOfStatus (statuscode m) = Integer n
         \<and> n \<in> set (acceptedOrDefault acceptedCodes)
         \<longrightarrow> checkOCSstatus json acceptedCodes = Some NoError)
   \<and> acceptedOrDefault None = [100]"
  by (simp add: checkOCSstatus_def notAccepted_def acceptedOrDefault_def)

theorem checkOCSstatus_accepts_witness:
  "checkOCSstatus \<lparr>ocs = None :: unit ocsBody option\<rparr> None = Some NoError
   \<and> checkOCSstatus \<lparr>ocs = Some \<lparr>meta = None, data = ()\<rparr>\<rparr> None = Some NoError
   \<and> checkOCSstatus
        \<lparr>ocs = Some \<lparr>meta = Some \<lparr>statuscode = StatusNumber 100, message = MessageString (js '''')\<rparr>,
                      data = ()\<rparr>\<rparr> None = Some NoError
   \<and> checkOCSstatus
        \<lparr>ocs = Some \<lparr>meta = Some \<lparr>statuscode = StatusString (js ''200''),
                                    message = MessageString (js ''OK'')\<rparr>,
                      data = ()\<rparr>\<rparr> (Some [100, 200]) = Some NoError"
proof -
  have p100: "parseIntOfStatus (StatusNumber 100) = Integer 100" by code_simp
  have p200: "parseIntOfStatus (StatusString (js ''200'')) = Integer 200" by code_simp
  let ?m = "\<lparr>statuscode = StatusNumber 100, message = MessageString (js '''')\<rparr>"
  let ?b = "\<lparr>meta = Some ?m, data = ()\<rparr>"
  let ?m' = "\<lparr>statuscode = StatusString (js ''200''), message = MessageString (js ''OK'')\<rparr>"
  let ?b' = "\<lparr>meta = Some ?m', data = ()\<rparr>"
  have a: "checkOCSstatus \<lparr>ocs = None :: unit ocsBody option\<rparr> None = Some NoError"
    using checkOCSstatus_accepts [of "\<lparr>ocs = None :: unit ocsBody option\<rparr>" None] by simp
  have b: "checkOCSstatus \<lparr>ocs = Some \<lparr>meta = None, data = ()\<rparr>\<rparr> None = Some NoError"
    using checkOCSstatus_accepts [of "\<lparr>ocs = Some \<lparr>meta = None, data = ()\<rparr>\<rparr>" None] by simp
  have c: "checkOCSstatus \<lparr>ocs = Some ?b\<rparr> None = Some NoError"
    using checkOCSstatus_accepts [of "\<lparr>ocs = Some ?b\<rparr>" None, THEN conjunct2, THEN conjunct2,
        THEN conjunct1, rule_format, of ?b ?m 100] p100
    by (simp add: acceptedOrDefault_def)
  have d: "checkOCSstatus \<lparr>ocs = Some ?b'\<rparr> (Some [100, 200]) = Some NoError"
    using checkOCSstatus_accepts [of "\<lparr>ocs = Some ?b'\<rparr>" "Some [100, 200]", THEN conjunct2,
        THEN conjunct2, THEN conjunct1, rule_format, of ?b' ?m' 200] p200
    by (simp add: acceptedOrDefault_def)
  from a b c d show ?thesis by (intro conjI)
qed

text \<open>
  Claim C7. When \<open>meta.statuscode\<close> parses to an integer outside the accepted codes,
  \<open>_checkOCSstatus\<close> returns \<open>meta.message\<close>, unless that is the empty string or a
  structure without keys: then it returns the whole envelope. The integer is a Number of
  magnitude below \<open>2^53\<close>, which is what \<open>Integer n\<close> says.
\<close>

theorem checkOCSstatus_rejects:
  assumes "ocs json = Some body"
    and "meta body = Some m"
    and "parseIntOfStatus (statuscode m) = Integer n"
    and "n \<notin> set (acceptedOrDefault acceptedCodes)"
  shows "checkOCSstatus json acceptedCodes =
           Some (if message m = MessageString [] \<or> message m = MessageObject []
                 then WholeEnvelope json
                 else ErrorMessage (message m))"
  using assms
  by (simp add: checkOCSstatus_def notAccepted_def objectKeysLength_0)

theorem checkOCSstatus_rejects_witness:
  "checkOCSstatus
     \<lparr>ocs = Some \<lparr>meta = Some \<lparr>statuscode = StatusNumber 404,
                                 message = MessageString (js ''Wrong path'')\<rparr>,
                   data = ()\<rparr>\<rparr> None
   = Some (ErrorMessage (MessageString (js ''Wrong path'')))
   \<and> checkOCSstatus
     \<lparr>ocs = Some \<lparr>meta = Some \<lparr>statuscode = StatusNumber 404, message = MessageString (js '''')\<rparr>,
                   data = ()\<rparr>\<rparr> None
   = Some (WholeEnvelope
     \<lparr>ocs = Some \<lparr>meta = Some \<lparr>statuscode = StatusNumber 404, message = MessageString (js '''')\<rparr>,
                   data = ()\<rparr>\<rparr>)"
proof -
  have p404: "parseIntOfStatus (StatusNumber 404) = Integer 404" by code_simp
  have out: "(404 :: int) \<notin> set (acceptedOrDefault None)"
    by (simp add: acceptedOrDefault_def)
  have nonempty: "js ''Wrong path'' \<noteq> []" by (simp add: js_def)
  have empty: "js '''' = []" by (simp add: js_def)
  let ?m = "\<lparr>statuscode = StatusNumber 404, message = MessageString (js ''Wrong path'')\<rparr>"
  let ?b = "\<lparr>meta = Some ?m, data = ()\<rparr>"
  let ?m' = "\<lparr>statuscode = StatusNumber 404, message = MessageString (js '''')\<rparr>"
  let ?b' = "\<lparr>meta = Some ?m', data = ()\<rparr>"
  have a: "checkOCSstatus \<lparr>ocs = Some ?b\<rparr> None
           = Some (ErrorMessage (MessageString (js ''Wrong path'')))"
    using checkOCSstatus_rejects [of "\<lparr>ocs = Some ?b\<rparr>" ?b ?m 404 None] p404 out nonempty
    by simp
  have b: "checkOCSstatus \<lparr>ocs = Some ?b'\<rparr> None = Some (WholeEnvelope \<lparr>ocs = Some ?b'\<rparr>)"
    using checkOCSstatus_rejects [of "\<lparr>ocs = Some ?b'\<rparr>" ?b' ?m' 404 None] p404 out empty
    by simp
  from a b show ?thesis by (intro conjI)
qed

subsection \<open>Encoding a path\<close>

lemma js_slash: "js ''/'' = [slash]"
  by (simp add: js_def slash_def)

lemma js_escaped_slash: "js ''%2F'' = [percent, 0x32, 0x46]"
  by (simp add: js_def percent_def)

lemma split_Nil: "sep \<noteq> [] \<Longrightarrow> split sep [] = [[]]"
  by (simp add: split.simps)

lemma split_at_sep: "sep \<noteq> [] \<Longrightarrow> split sep (sep @ s) = [] # split sep s"
  by (subst split.simps) simp

lemma split_not_sep:
  assumes "sep \<noteq> []" "c \<noteq> hd sep"
  shows "split sep (c # s)
         = (case split sep s of [] \<Rightarrow> [[c]] | piece # pieces \<Rightarrow> (c # piece) # pieces)"
proof -
  from assms obtain h t where sep: "sep = h # t" "c \<noteq> h"
    by (cases sep) auto
  then have "take (length sep) (c # s) \<noteq> sep" by simp
  with assms(1) show ?thesis
    by (subst split.simps) (simp cong: list.case_cong)
qed

lemma split_nonempty: "sep \<noteq> [] \<Longrightarrow> split sep s \<noteq> []"
  by (subst split.simps) (auto split: list.splits)

lemma join_Cons_head: "join sep ((c # piece) # pieces) = c # join sep (piece # pieces)"
  by (cases pieces) simp_all

lemma join_Nil_head: "pieces \<noteq> [] \<Longrightarrow> join sep ([] # pieces) = sep @ join sep pieces"
  by (cases pieces) simp_all

lemma join_split: "sep \<noteq> [] \<Longrightarrow> join sep (split sep s) = s"
proof (induction sep s rule: split.induct)
  case (1 sep s)
  show ?case
  proof (cases "s = []")
    case True
    with "1.prems" show ?thesis by (simp add: split_Nil)
  next
    case False
    show ?thesis
    proof (cases "take (length sep) s = sep")
      case True
      from "1.IH"(1) [OF "1.prems" False True "1.prems"]
      have "join sep (split sep (drop (length sep) s)) = drop (length sep) s" .
      moreover have "s = sep @ drop (length sep) s"
        using True by (metis append_take_drop_id)
      moreover have "split sep s = [] # split sep (drop (length sep) s)"
        using "1.prems" False True by (subst split.simps) simp
      ultimately show ?thesis
        using split_nonempty [OF "1.prems", of "drop (length sep) s"]
        by (simp add: join_Nil_head)
    next
      case notsep: False
      from "1.IH"(2) [OF "1.prems" False notsep "1.prems"]
      have ih: "join sep (split sep (tl s)) = tl s" .
      obtain piece pieces where pieces: "split sep (tl s) = piece # pieces"
        using split_nonempty [OF "1.prems", of "tl s"] by (cases "split sep (tl s)") auto
      have "split sep s = (hd s # piece) # pieces"
        using "1.prems" False notsep pieces by (subst split.simps) simp
      with ih pieces False show ?thesis
        by (simp add: join_Cons_head)
    qed
  qed
qed

lemma set_split: "sep \<noteq> [] \<Longrightarrow> x \<in> set (split sep s) \<Longrightarrow> set x \<subseteq> set s"
proof (induction sep s arbitrary: x rule: split.induct)
  case (1 sep s)
  show ?case
  proof (cases "s = []")
    case True
    with "1.prems" show ?thesis by (simp add: split_Nil)
  next
    case False
    show ?thesis
    proof (cases "take (length sep) s = sep")
      case True
      have eq: "split sep s = [] # split sep (drop (length sep) s)"
        using "1.prems"(1) False True by (subst split.simps) simp
      show ?thesis
      proof (cases "x = []")
        case True
        then show ?thesis by simp
      next
        case nonempty: False
        with "1.prems"(2) eq have "x \<in> set (split sep (drop (length sep) s))" by simp
        from "1.IH"(1) [OF "1.prems"(1) False True "1.prems"(1) this]
        show ?thesis using set_drop_subset [of "length sep" s] by blast
      qed
    next
      case notsep: False
      obtain piece pieces where pieces: "split sep (tl s) = piece # pieces"
        using split_nonempty [OF "1.prems"(1), of "tl s"] by (cases "split sep (tl s)") auto
      have eq: "split sep s = (hd s # piece) # pieces"
        using "1.prems"(1) False notsep pieces by (subst split.simps) simp
      have tl_sub: "set (tl s) \<subseteq> set s" using False by (cases s) auto
      have hd_in: "hd s \<in> set s" using False by simp
      from "1.prems"(2) eq have "x = hd s # piece \<or> x \<in> set pieces" by simp
      then show ?thesis
      proof
        assume x: "x = hd s # piece"
        have "piece \<in> set (split sep (tl s))" using pieces by simp
        from "1.IH"(2) [OF "1.prems"(1) False notsep "1.prems"(1) this] x tl_sub hd_in
        show ?thesis by auto
      next
        assume "x \<in> set pieces"
        then have "x \<in> set (split sep (tl s))" using pieces by simp
        from "1.IH"(2) [OF "1.prems"(1) False notsep "1.prems"(1) this] tl_sub
        show ?thesis by blast
      qed
    qed
  qed
qed

lemma Decode_no_escape: "percent \<notin> set s \<Longrightarrow> Decode s = Inr s"
proof (induction s)
  case Nil
  show ?case by simp
next
  case (Cons c s)
  then have "c \<noteq> percent" and "Decode s = Inr s" by auto
  then show ?case by (simp add: prepend_def)
qed

lemma unescaped_not_percent: "uriUnescaped c \<Longrightarrow> c \<noteq> percent"
proof
  assume "uriUnescaped c" "c = percent"
  moreover have "\<not> uriUnescaped percent" by code_simp
  ultimately show False by simp
qed

lemma slash_not_percent: "slash \<noteq> percent"
  by code_simp

lemma Encode_slash: "Encode (slash # s) = prepend (js ''%2F'') (Encode s)"
proof -
  have "\<not> uriUnescaped slash" by code_simp
  moreover have "\<not> isTrailingSurrogate slash" by code_simp
  moreover have "\<not> isLeadingSurrogate slash" by code_simp
  moreover have "escapes (utf8Encode (uint slash)) = js ''%2F''" by code_simp
  ultimately show ?thesis by simp
qed

lemma Encode_unescaped:
  "\<forall>c \<in> set p. uriUnescaped c \<or> c = slash \<Longrightarrow> Encode p = Inr (escapeSlashes p)"
proof (induction p)
  case Nil
  show ?case by (simp add: escapeSlashes_def)
next
  case (Cons c p)
  then have ih: "Encode p = Inr (escapeSlashes p)" by simp
  show ?case
  proof (cases "c = slash")
    case True
    with ih show ?thesis
      by (simp only: Encode_slash) (simp add: prepend_def escapeSlashes_def)
  next
    case False
    with Cons.prems have "uriUnescaped c" by simp
    with ih False show ?thesis
      by (simp add: prepend_def escapeSlashes_def)
  qed
qed

lemma join_split_escapeSlashes:
  "\<forall>c \<in> set p. c \<noteq> percent \<Longrightarrow> join [slash] (split (js ''%2F'') (escapeSlashes p)) = p"
proof (induction p)
  case Nil
  show ?case by (simp add: escapeSlashes_def split_Nil js_escaped_slash)
next
  case (Cons c p)
  have sep: "js ''%2F'' \<noteq> []" by (simp add: js_escaped_slash)
  from Cons have ih: "join [slash] (split (js ''%2F'') (escapeSlashes p)) = p" by simp
  obtain piece pieces where pieces: "split (js ''%2F'') (escapeSlashes p) = piece # pieces"
    using split_nonempty [OF sep, of "escapeSlashes p"]
    by (cases "split (js ''%2F'') (escapeSlashes p)") auto
  show ?case
  proof (cases "c = slash")
    case True
    then have "escapeSlashes (c # p) = js ''%2F'' @ escapeSlashes p"
      by (simp add: escapeSlashes_def)
    then have "split (js ''%2F'') (escapeSlashes (c # p)) = [] # piece # pieces"
      using split_at_sep [OF sep, of "escapeSlashes p"] pieces by simp
    with ih pieces True show ?thesis by simp
  next
    case False
    then have esc: "escapeSlashes (c # p) = c # escapeSlashes p"
      by (simp add: escapeSlashes_def)
    from Cons.prems have "c \<noteq> hd (js ''%2F'')" by (simp add: js_escaped_slash)
    from split_not_sep [OF sep this, of "escapeSlashes p"] pieces esc
    have "split (js ''%2F'') (escapeSlashes (c # p)) = (c # piece) # pieces" by simp
    with ih pieces show ?thesis by (simp add: join_Cons_head)
  qed
qed

lemma no_escape_character:
  assumes "\<forall>c \<in> set n. uriUnescaped c \<or> c = slash"
  shows "\<forall>c \<in> set n. c \<noteq> percent"
proof
  fix c
  assume "c \<in> set n"
  with assms have "uriUnescaped c \<or> c = slash" by (rule bspec)
  then show "c \<noteq> percent"
  proof
    assume "uriUnescaped c"
    then show ?thesis by (rule unescaped_not_percent)
  next
    assume "c = slash"
    then show ?thesis by (simp only: slash_not_percent not_False_eq_True)
  qed
qed

lemma normalizePath_chars:
  "\<forall>c \<in> set p. uriUnescaped c \<or> c = slash \<Longrightarrow>
     \<forall>c \<in> set (normalizePath p). uriUnescaped c \<or> c = slash"
  by (cases p) (auto simp: normalizePath_simps)

text \<open>
  Claim C9. For a path made of unescaped characters (letters, digits and
  \<open>- _ . ! ~ * ' ( )\<close>, which include the unreserved characters of a URI) and \<open>/\<close>,
  \<open>_encodeUri\<close> returns the normalized path itself, with every \<open>/\<close> left as it is;
  each piece of the result between the \<open>/\<close> separators decodes to itself, and the
  pieces joined by \<open>/\<close> are the normalized path again.
\<close>

theorem encodeUri_roundtrip:
  assumes "\<forall>c \<in> set path. uriUnescaped c \<or> c = slash"
  shows "encodeUri path = Inr (normalizePath path)
         \<and> map decodeURIComponent (split (js ''/'') (normalizePath path))
             = map Inr (split (js ''/'') (normalizePath path))
         \<and> join (js ''/'') (split (js ''/'') (normalizePath path)) = normalizePath path"
proof -
  let ?n = "normalizePath path"
  have chars: "\<forall>c \<in> set ?n. uriUnescaped c \<or> c = slash"
    using assms by (rule normalizePath_chars)
  then have no_percent: "\<forall>c \<in> set ?n. c \<noteq> percent"
    by (rule no_escape_character)
  have "encodeURIComponent ?n = Inr (escapeSlashes ?n)"
    using Encode_unescaped [OF chars] by (simp add: encodeURIComponent_def)
  then have encoded: "encodeUri path = Inr ?n"
    using join_split_escapeSlashes [OF no_percent]
    by (simp add: encodeUri_def js_slash)
  have "decodeURIComponent x = Inr x" if "x \<in> set (split (js ''/'') ?n)" for x
  proof -
    have "set x \<subseteq> set ?n"
      using set_split [OF _ that] by (simp add: js_slash)
    with no_percent have "percent \<notin> set x" by blast
    then show ?thesis by (simp add: decodeURIComponent_def Decode_no_escape)
  qed
  then have decoded: "map decodeURIComponent (split (js ''/'') ?n)
                      = map Inr (split (js ''/'') ?n)"
    by simp
  have joined: "join (js ''/'') (split (js ''/'') ?n) = ?n"
    by (rule join_split) (simp add: js_slash)
  from encoded decoded joined show ?thesis by (intro conjI)
qed

theorem encodeUri_roundtrip_witness:
  "encodeUri (js ''docs/sub-dir/file_1.txt'') = Inr (js ''/docs/sub-dir/file_1.txt'')
   \<and> map decodeURIComponent (split (js ''/'') (js ''/docs/sub-dir/file_1.txt''))
       = map Inr [js '''', js ''docs'', js ''sub-dir'', js ''file_1.txt'']
   \<and> join (js ''/'') [js '''', js ''docs'', js ''sub-dir'', js ''file_1.txt'']
       = js ''/docs/sub-dir/file_1.txt''"
proof -
  let ?p = "js ''docs/sub-dir/file_1.txt''"
  have chars: "\<forall>c \<in> set ?p. uriUnescaped c \<or> c = slash" by code_simp
  have norm: "normalizePath ?p = js ''/docs/sub-dir/file_1.txt''" by code_simp
  have pieces: "split (js ''/'') (js ''/docs/sub-dir/file_1.txt'')
                = [js '''', js ''docs'', js ''sub-dir'', js ''file_1.txt'']" by code_simp
  from encodeUri_roundtrip [OF chars] show ?thesis
    by (simp only: norm pieces)
qed

end
